theory Spec2Isabelle
  imports Main
begin

section \<open>The Etcher GUI bootstrap (lib/gui/etcher.ts)\<close>

text \<open>
  The file registers handlers on the application object and, inside the \<open>ready\<close>
  handler, on the main window. Each handler is embedded as a function on an explicit
  application state. Calls on external collaborators (analytics, the dialog, the settings
  store, the auto-updater, the menu builder, the window, the application object) are
  appended to a call log in the order the source makes them, so that ordering properties
  can be stated. An exception is a value \<open>Inl\<close> of the result; the state reached before
  the throw is returned with it.
\<close>

subsection \<open>Values of the host\<close>

text \<open>
  What the handlers read from their surroundings. \<open>process_arch\<close> and
  \<open>process_platform\<close> are \<open>process.arch\<close> and \<open>process.platform\<close>;
  \<open>os_platform\<close> is what the call \<open>platform()\<close> of the \<open>os\<close> module returns
  (line 84); \<open>os_release\<close> is the version of the operating system, which this file never
  reads; \<open>NODE_ENV\<close> is \<open>process.env.NODE_ENV\<close>; \<open>settings\<close> gives the value
  \<open>settings.get(key)\<close> resolves to; \<open>dirname\<close> is \<open>__dirname\<close>.
  \<open>GENERAL_ERROR\<close> is the constant of \<open>../shared/exit-codes\<close>, a module that is not
  part of the file: it is taken as a parameter.
\<close>

record env =
  process_arch :: string
  process_platform :: string
  os_platform :: string
  os_release :: string
  NODE_ENV :: "string option"
  settings :: "string \<Rightarrow> bool"
  dirname :: string
  GENERAL_ERROR :: int

definition isDevelopment :: "env \<Rightarrow> bool" where
  "isDevelopment e = (NODE_ENV e = Some ''development'')"

datatype js_error = TypeError string | ReferenceError string

subsection \<open>The window and the application state\<close>

record web_preferences =
  nodeIntegration :: bool
  contextIsolation :: bool
  webviewTag :: bool
  sandbox :: bool
  nativeWindowOpen :: bool
  enableRemoteModule :: bool

text \<open>The option \<open>show\<close> of the source is the field \<open>show_window\<close>.\<close>

record window_options =
  width :: nat
  height :: nat
  show_window :: bool
  minWidth :: nat
  minHeight :: nat
  backgroundColor :: string
  title :: string
  titleBarStyle :: string
  webPreferences :: web_preferences

text \<open>The five closures that \<open>ready\<close> registers on the window (lines 147 to 176).\<close>

datatype window_handler = OnClosed | OnReadyToShow | OnShow | OnHide | OnMinimize

record browser_window =
  options :: window_options
  visible :: bool
  menu_built :: bool
  loaded_url :: "string option"
  dev_tools_open :: bool
  listeners :: "(string \<times> window_handler) list"

text \<open>
  The variable \<open>mainWindow\<close> is declared without an initial value (line 53), so it
  starts as \<open>undefined\<close>; the \<open>closed\<close> handler stores \<open>null\<close>.
\<close>

datatype window_ref = Undefined | Null | Window browser_window

record auto_updater =
  autoDownload :: bool
  autoInstallOnAppQuit :: bool

datatype call =
    LogException string
  | ShowErrorBox string
  | AppExit int
  | AppQuit
  | AppEmit string
  | SettingsGet string
  | SetAutoDownload bool
  | SetAutoInstallOnAppQuit bool
  | NewBrowserWindow window_options
  | BuildWindowMenu
  | LoadURL string
  | OpenDevTools
  | WindowOn string
  | WindowShow
  | WindowHide
  | CheckForUpdates
  | PreventDefault

record app_state =
  mainWindow :: window_ref
  autoUpdater :: auto_updater
  calls :: "call list"

definition call :: "call \<Rightarrow> app_state \<Rightarrow> app_state" where
  "call c st = st\<lparr>calls := calls st @ [c]\<rparr>"

subsection \<open>The comparison of the semver package\<close>

text \<open>
  \<open>semver.lt(a, b)\<close> builds a version from each argument and throws a TypeError for an
  argument that is not a version. The embedding covers the plain form
  \<open>MAJOR.MINOR.PATCH\<close> of three numeric identifiers without leading zeros, which is the
  form of every entry of the table of minimum versions; everything else, and the value
  \<open>undefined\<close> (\<open>None\<close>), is not a version.
\<close>

fun split_on :: "char \<Rightarrow> string \<Rightarrow> string list" where
  "split_on c [] = [[]]"
| "split_on c (x # xs) =
     (if x = c then [] # split_on c xs
      else (case split_on c xs of [] \<Rightarrow> [[x]] | w # ws \<Rightarrow> (x # w) # ws))"

text \<open>The decimal digits are the characters with codes 48 to 57.\<close>

definition digit_value :: "char \<Rightarrow> nat option" where
  "digit_value c =
     (let n = (of_char c :: nat) in if 48 \<le> n \<and> n \<le> 57 then Some (n - 48) else None)"

fun digits_value :: "nat \<Rightarrow> string \<Rightarrow> nat option" where
  "digits_value acc [] = Some acc"
| "digits_value acc (c # cs) =
     (case digit_value c of None \<Rightarrow> None | Some d \<Rightarrow> digits_value (10 * acc + d) cs)"

definition numeric_identifier :: "string \<Rightarrow> nat option" where
  "numeric_identifier s =
     (if s = [] then None
      else if hd s = CHR ''0'' \<and> tl s \<noteq> [] then None
      else digits_value 0 s)"

definition parse_version :: "string \<Rightarrow> (nat \<times> nat \<times> nat) option" where
  "parse_version s =
     (case split_on CHR ''.'' s of
        [a, b, c] \<Rightarrow>
          (case (numeric_identifier a, numeric_identifier b, numeric_identifier c) of
             (Some x, Some y, Some z) \<Rightarrow> Some (x, y, z)
           | _ \<Rightarrow> None)
      | _ \<Rightarrow> None)"

definition SemVer :: "string option \<Rightarrow> js_error + (nat \<times> nat \<times> nat)" where
  "SemVer v =
     (case v of
        None \<Rightarrow> Inl (TypeError ''Invalid Version: undefined'')
      | Some s \<Rightarrow>
          (case parse_version s of
             None \<Rightarrow> Inl (TypeError (''Invalid Version: '' @ s))
           | Some t \<Rightarrow> Inr t))"

definition version_less :: "nat \<times> nat \<times> nat \<Rightarrow> nat \<times> nat \<times> nat \<Rightarrow> bool" where
  "version_less a b =
     (case a of (x1, y1, z1) \<Rightarrow> case b of (x2, y2, z2) \<Rightarrow>
        x1 < x2 \<or> (x1 = x2 \<and> (y1 < y2 \<or> (y1 = y2 \<and> z1 < z2))))"

definition semver_lt :: "string option \<Rightarrow> string option \<Rightarrow> js_error + bool" where
  "semver_lt a b =
     (case SemVer a of
        Inl e \<Rightarrow> Inl e
      | Inr va \<Rightarrow> (case SemVer b of Inl e \<Rightarrow> Inl e | Inr vb \<Rightarrow> Inr (version_less va vb)))"

subsection \<open>The ready handler (lines 58 to 177)\<close>

definition supported_architectures :: "string list" where
  "supported_architectures = [''armv7l'', ''x64'']"

definition supported_platforms :: "string list" where
  "supported_platforms = [''darwin'', ''linux'', ''win32'']"

definition MINIMUM_SUPPORTED_VERSIONS :: "(string \<times> string) list" where
  "MINIMUM_SUPPORTED_VERSIONS =
     [(''darwin'', ''10.11.0''), (''linux'', ''3.10.0''), (''win32'', ''6.1.0'')]"

text \<open>Sequencing of two steps that may throw.\<close>

definition and_then ::
  "(app_state \<Rightarrow> (js_error + unit) \<times> app_state) \<Rightarrow> (app_state \<Rightarrow> (js_error + unit) \<times> app_state)
     \<Rightarrow> app_state \<Rightarrow> (js_error + unit) \<times> app_state" where
  "and_then f g st = (case f st of (Inl e, st') \<Rightarrow> (Inl e, st') | (Inr u, st') \<Rightarrow> g st')"

text \<open>
  The module neither imports nor declares the identifier \<open>osDialog\<close> (imports and
  bindings of lines 17 to 31; uses on lines 63, 72 and 87). Evaluating it throws a
  ReferenceError, so \<open>showErrorBox\<close> is never called.
\<close>

definition osDialog :: "js_error + unit" where
  "osDialog = Inl (ReferenceError ''osDialog is not defined'')"

definition osDialog_showErrorBox :: "string \<Rightarrow> app_state \<Rightarrow> (js_error + unit) \<times> app_state" where
  "osDialog_showErrorBox message st =
     (case osDialog of
        Inl err \<Rightarrow> (Inl err, st)
      | Inr dialog \<Rightarrow> (Inr (), call (ShowErrorBox message) st))"

text \<open>
  The three failure paths share their tail: \<open>logException(new Error(message))\<close>,
  \<open>await osDialog.showErrorBox(message)\<close>, \<open>app.exit(EXIT_CODES.GENERAL_ERROR)\<close>,
  \<open>return\<close>. The throw of the second statement ends the handler, so the third is not
  reached.
\<close>

definition fail_startup :: "env \<Rightarrow> string \<Rightarrow> app_state \<Rightarrow> (js_error + unit) \<times> app_state" where
  "fail_startup e message =
     and_then (\<lambda>st. (Inr (), call (LogException message) st))
    (and_then (osDialog_showErrorBox message)
              (\<lambda>st. (Inr (), call (AppExit (GENERAL_ERROR e)) st)))"

definition main_window_options :: window_options where
  "main_window_options =
     \<lparr> width = 1280, height = 720, show_window = False, minWidth = 1280, minHeight = 720,
       backgroundColor = ''#ffffff'', title = ''Etcher'', titleBarStyle = ''hiddenInset'',
       webPreferences =
         \<lparr> nodeIntegration = True, contextIsolation = False, webviewTag = True,
           sandbox = True, nativeWindowOpen = True, enableRemoteModule = True \<rparr> \<rparr>"

text \<open>\<open>new BrowserWindow(options)\<close>: a window with no menu, no content and no listener.\<close>

definition new_BrowserWindow :: "window_options \<Rightarrow> browser_window" where
  "new_BrowserWindow opts =
     \<lparr> options = opts, visible = show_window opts, menu_built = False, loaded_url = None,
       dev_tools_open = False, listeners = [] \<rparr>"

text \<open>
  Operations on the object that \<open>mainWindow\<close> holds. Reading a property of \<open>null\<close> or of
  \<open>undefined\<close> throws a TypeError.
\<close>

definition on_main_window ::
  "string \<Rightarrow> call \<Rightarrow> (browser_window \<Rightarrow> browser_window) \<Rightarrow> app_state \<Rightarrow> (js_error + unit) \<times> app_state" where
  "on_main_window prop c f st =
     (case mainWindow st of
        Window w \<Rightarrow> (Inr (), call c (st\<lparr>mainWindow := Window (f w)\<rparr>))
      | Null \<Rightarrow> (Inl (TypeError (''Cannot read properties of null, reading '' @ prop)), st)
      | Undefined \<Rightarrow> (Inl (TypeError (''Cannot read properties of undefined, reading '' @ prop)), st))"

definition window_on :: "string \<Rightarrow> window_handler \<Rightarrow> app_state \<Rightarrow> (js_error + unit) \<times> app_state" where
  "window_on name h = on_main_window ''on'' (WindowOn name) (\<lambda>w. w\<lparr>listeners := listeners w @ [(name, h)]\<rparr>)"

definition window_show :: "app_state \<Rightarrow> (js_error + unit) \<times> app_state" where
  "window_show = on_main_window ''show'' WindowShow (\<lambda>w. w\<lparr>visible := True\<rparr>)"

definition window_hide :: "app_state \<Rightarrow> (js_error + unit) \<times> app_state" where
  "window_hide = on_main_window ''hide'' WindowHide (\<lambda>w. w\<lparr>visible := False\<rparr>)"

text \<open>
  Lines 92 to 103. The branch of line 93 holds an \<open>await\<close> without an operand and nothing
  else: it makes no call. Both settings are read in any case.
\<close>

definition apply_settings :: "env \<Rightarrow> app_state \<Rightarrow> app_state" where
  "apply_settings e st =
     (let st1 = call (SettingsGet ''errorReporting'') st;
          st2 = (if \<not> settings e ''errorReporting'' \<and> \<not> isDevelopment e then st1 else st1);
          st3 = call (SettingsGet ''updatesEnabled'') st2
      in if \<not> settings e ''updatesEnabled''
         then call (SetAutoInstallOnAppQuit False)
                (call (SetAutoDownload False) st3)
                \<lparr>autoUpdater := \<lparr>autoDownload = False, autoInstallOnAppQuit = False\<rparr>\<rparr>
         else st3)"

text \<open>Lines 105 to 144.\<close>

definition create_window :: "env \<Rightarrow> app_state \<Rightarrow> app_state" where
  "create_window e st =
     (let w0 = new_BrowserWindow main_window_options;
          st1 = call (NewBrowserWindow main_window_options) (st\<lparr>mainWindow := Window w0\<rparr>);
          w1 = w0\<lparr>menu_built := True\<rparr>;
          st2 = call BuildWindowMenu (st1\<lparr>mainWindow := Window w1\<rparr>);
          url = ''file://'' @ dirname e @ ''/app/index.html'';
          w2 = w1\<lparr>loaded_url := Some url\<rparr>;
          st3 = call (LoadURL url) (st2\<lparr>mainWindow := Window w2\<rparr>)
      in if isDevelopment e
         then call OpenDevTools (st3\<lparr>mainWindow := Window (w2\<lparr>dev_tools_open := True\<rparr>)\<rparr>)
         else st3)"

text \<open>
  Lines 146 to 176. The source lacks the closing parenthesis of the registration of
  \<open>ready-to-show\<close> (line 158) and of \<open>ready\<close> itself (line 177); the five
  registrations are taken in the order in which they are written.
\<close>

definition register_window_handlers :: "app_state \<Rightarrow> (js_error + unit) \<times> app_state" where
  "register_window_handlers =
     and_then (window_on ''closed'' OnClosed)
    (and_then (window_on ''ready-to-show'' OnReadyToShow)
    (and_then (window_on ''show'' OnShow)
    (and_then (window_on ''hide'' OnHide)
              (window_on ''minimize'' OnMinimize))))"

definition ready :: "env \<Rightarrow> app_state \<Rightarrow> (js_error + unit) \<times> app_state" where
  "ready e st =
     (if process_arch e \<notin> set supported_architectures then
        fail_startup e
           (''Etcher does not support the current architecture: '' @ process_arch e) st
      else if process_platform e \<notin> set supported_platforms then
        fail_startup e
           (''Etcher does not support the current operating system: '' @ process_platform e) st
      else
        (let minimumVersion = map_of MINIMUM_SUPPORTED_VERSIONS (process_platform e) in
         case semver_lt (Some (os_platform e)) minimumVersion of
           Inl err \<Rightarrow> (Inl err, st)
         | Inr True \<Rightarrow>
             fail_startup e
                (''Etcher does not support '' @ process_platform e @ '' versions older than ''
                   @ (case minimumVersion of None \<Rightarrow> ''undefined'' | Some v \<Rightarrow> v)) st
         | Inr False \<Rightarrow> register_window_handlers (create_window e (apply_settings e st))))"

subsection \<open>The handlers registered on the window\<close>

text \<open>
  The bodies of the five closures. They read the variable \<open>mainWindow\<close>, not the window
  that emits the event.
\<close>

fun run_window_handler :: "window_handler \<Rightarrow> app_state \<Rightarrow> (js_error + unit) \<times> app_state" where
  "run_window_handler OnClosed st = (Inr (), st\<lparr>mainWindow := Null\<rparr>)"
| "run_window_handler OnReadyToShow st = window_show st"
| "run_window_handler OnShow st = (Inr (), call CheckForUpdates st)"
| "run_window_handler OnHide st = (Inr (), call AppQuit st)"
| "run_window_handler OnMinimize st = window_hide st"

text \<open>An emitter calls its listeners in the order of registration; a throw ends the round.\<close>

fun run_window_handlers :: "window_handler list \<Rightarrow> app_state \<Rightarrow> (js_error + unit) \<times> app_state" where
  "run_window_handlers [] st = (Inr (), st)"
| "run_window_handlers (h # hs) st =
     (case run_window_handler h st of
        (Inl err, st') \<Rightarrow> (Inl err, st')
      | (Inr u, st') \<Rightarrow> run_window_handlers hs st')"

definition listeners_for :: "string \<Rightarrow> (string \<times> 'h) list \<Rightarrow> 'h list" where
  "listeners_for name table = map snd (filter (\<lambda>p. fst p = name) table)"

text \<open>The main window emits the event \<open>name\<close>. Without a window nothing is emitted.\<close>

definition window_emit :: "string \<Rightarrow> app_state \<Rightarrow> (js_error + unit) \<times> app_state" where
  "window_emit name st =
     (case mainWindow st of
        Window w \<Rightarrow> run_window_handlers (listeners_for name (listeners w)) st
      | Null \<Rightarrow> (Inr (), st)
      | Undefined \<Rightarrow> (Inr (), st))"

subsection \<open>The handlers registered on the application (lines 179 to 258)\<close>

record event =
  defaultPrevented :: bool

definition window_all_closed :: "env \<Rightarrow> app_state \<Rightarrow> app_state" where
  "window_all_closed e st = (if process_platform e \<noteq> ''darwin'' then call AppQuit st else st)"

text \<open>
  \<open>app.emit('ready')\<close> calls the listeners of \<open>ready\<close>, of which the file registers one.
  That listener is an async function: what it throws rejects its promise and does not
  reach the caller of \<open>emit\<close>.
\<close>

definition activate :: "env \<Rightarrow> app_state \<Rightarrow> app_state" where
  "activate e st =
     (if mainWindow st = Null then snd (ready e (call (AppEmit ''ready'') st)) else st)"

text \<open>
  The body shared by every listener of \<open>before-quit\<close>, \<open>will-quit\<close> and \<open>quit\<close>:
  \<open>event.preventDefault(); mainWindow.hide();\<close>
\<close>

definition prevent_quit :: "event \<Rightarrow> app_state \<Rightarrow> (js_error + unit) \<times> event \<times> app_state" where
  "prevent_quit ev st =
     (case window_hide (call PreventDefault st) of
        (r, st') \<Rightarrow> (r, ev\<lparr>defaultPrevented := True\<rparr>, st'))"

datatype app_handler = Ready | WindowAllClosed | Activate | PreventQuit

text \<open>
  The registrations in the order of the file, which is the order in which the application
  object calls them. The listeners of lines 197 to 258 have the same body. The text of
  the file ends inside a further listener of \<open>quit\<close> (line 261), after its call of
  \<open>preventDefault\<close>; that unfinished registration is not in the table.
\<close>

definition app_listeners :: "(string \<times> app_handler) list" where
  "app_listeners =
     [ (''ready'', Ready),
       (''window-all-closed'', WindowAllClosed),
       (''activate'', Activate),
       (''before-quit'', PreventQuit),
       (''will-quit'', PreventQuit),
       (''quit'', PreventQuit),
       (''before-quit'', PreventQuit),
       (''will-quit'', PreventQuit),
       (''quit'', PreventQuit),
       (''before-quit'', PreventQuit),
       (''will-quit'', PreventQuit) ]"

fun run_app_handler ::
  "env \<Rightarrow> app_handler \<Rightarrow> event \<Rightarrow> app_state \<Rightarrow> (js_error + unit) \<times> event \<times> app_state" where
  "run_app_handler e Ready ev st = (case ready e st of (r, st') \<Rightarrow> (r, ev, st'))"
| "run_app_handler e WindowAllClosed ev st = (Inr (), ev, window_all_closed e st)"
| "run_app_handler e Activate ev st = (Inr (), ev, activate e st)"
| "run_app_handler e PreventQuit ev st = prevent_quit ev st"

fun dispatch ::
  "env \<Rightarrow> app_handler list \<Rightarrow> event \<Rightarrow> app_state \<Rightarrow> (js_error + unit) \<times> event \<times> app_state" where
  "dispatch e [] ev st = (Inr (), ev, st)"
| "dispatch e (h # hs) ev st =
     (case run_app_handler e h ev st of
        (Inl err, ev', st') \<Rightarrow> (Inl err, ev', st')
      | (Inr u, ev', st') \<Rightarrow> dispatch e hs ev' st')"

text \<open>The application emits the event \<open>name\<close> with a fresh event object.\<close>

definition app_emit :: "env \<Rightarrow> string \<Rightarrow> app_state \<Rightarrow> (js_error + unit) \<times> event \<times> app_state" where
  "app_emit e name st =
     dispatch e (listeners_for name app_listeners) \<lparr>defaultPrevented = False\<rparr> st"

subsection \<open>The host\<close>

text \<open>
  The quit sequence that Electron documents for \<open>app.quit()\<close> and for a quit requested
  by the user: \<open>before-quit\<close> is emitted; unless its default was prevented the windows
  are closed and \<open>will-quit\<close> is emitted; unless its default was prevented \<open>quit\<close> is
  emitted and the process ends. The result says whether the process ended.
\<close>

definition quit_sequence :: "env \<Rightarrow> app_state \<Rightarrow> bool \<times> app_state" where
  "quit_sequence e st =
     (case app_emit e ''before-quit'' st of (r1, ev1, st1) \<Rightarrow>
        if defaultPrevented ev1 then (False, st1)
        else (case app_emit e ''will-quit'' (snd (window_emit ''closed'' st1)) of (r2, ev2, st2) \<Rightarrow>
          if defaultPrevented ev2 then (False, st2)
          else (case app_emit e ''quit'' st2 of (r3, ev3, st3) \<Rightarrow> (True, st3))))"

text \<open>
  The host delivers events one at a time (the handlers never run concurrently): events
  of the application and events of the main window.
\<close>

datatype host_event = AppEvent string | WindowEvent string

fun deliver :: "env \<Rightarrow> host_event \<Rightarrow> app_state \<Rightarrow> app_state" where
  "deliver e (AppEvent name) st = snd (snd (app_emit e name st))"
| "deliver e (WindowEvent name) st = snd (window_emit name st)"

fun run :: "env \<Rightarrow> host_event list \<Rightarrow> app_state \<Rightarrow> app_state" where
  "run e [] st = st"
| "run e (x # xs) st = run e xs (deliver e x st)"

text \<open>The state when the module has been loaded: no window, no call made yet.\<close>

definition initial_state :: "auto_updater \<Rightarrow> app_state" where
  "initial_state au = \<lparr> mainWindow = Undefined, autoUpdater = au, calls = [] \<rparr>"

text \<open>The calls a step added to the log.\<close>

definition new_calls :: "app_state \<Rightarrow> app_state \<Rightarrow> call list" where
  "new_calls st st' = drop (length (calls st)) (calls st')"


subsection \<open>Concrete hosts\<close>

text \<open>
  A Linux host with kernel 3.9.0. On Node the call \<open>platform()\<close> of the \<open>os\<close> module
  yields the platform identifier, the same value as \<open>process.platform\<close>.
\<close>

definition linux_3_9 :: env where
  "linux_3_9 =
     \<lparr> process_arch = ''x64'', process_platform = ''linux'', os_platform = ''linux'',
       os_release = ''3.9.0'', NODE_ENV = None, settings = (\<lambda>k. True),
       dirname = ''/opt/Etcher/lib/gui'', GENERAL_ERROR = 1 \<rparr>"

text \<open>
  A host on which the handler gets past the check of line 84: \<open>platform()\<close> yields a
  version that is not below the minimum. The user has switched off error reporting and
  updates; the build is not a development build.
\<close>

definition opted_out :: env where
  "opted_out =
     \<lparr> process_arch = ''x64'', process_platform = ''linux'', os_platform = ''5.15.0'',
       os_release = ''5.15.0'', NODE_ENV = None, settings = (\<lambda>k. False),
       dirname = ''/opt/Etcher/lib/gui'', GENERAL_ERROR = 1 \<rparr>"

text \<open>The same user on a host where \<open>platform()\<close> yields the platform identifier.\<close>

definition linux_opted_out :: env where
  "linux_opted_out = opted_out\<lparr>os_platform := ''linux''\<rparr>"

definition default_updater :: auto_updater where
  "default_updater = \<lparr> autoDownload = True, autoInstallOnAppQuit = True \<rparr>"

text \<open>A host of an architecture outside the list, and a macOS host.\<close>

definition ia32_host :: env where
  "ia32_host = linux_3_9\<lparr>process_arch := ''ia32''\<rparr>"

definition mac_host :: env where
  "mac_host = opted_out\<lparr>process_platform := ''darwin'', os_platform := ''21.6.0''\<rparr>"

subsection \<open>Notions used by the proofs\<close>

text \<open>
  What the passing path of \<open>ready\<close> leaves behind, written out: the listeners of the new
  window, the window itself, the calls in their order and the resulting state. Lemma
  \<open>startup_tail\<close> below proves that the handler computes exactly these.
\<close>

definition window_listeners :: "(string \<times> window_handler) list" where
  "window_listeners =
     [(''closed'', OnClosed), (''ready-to-show'', OnReadyToShow), (''show'', OnShow),
      (''hide'', OnHide), (''minimize'', OnMinimize)]"

definition main_window :: "env \<Rightarrow> browser_window" where
  "main_window e =
     \<lparr> options = main_window_options, visible = False, menu_built = True,
       loaded_url = Some (''file://'' @ dirname e @ ''/app/index.html''),
       dev_tools_open = isDevelopment e, listeners = window_listeners \<rparr>"

definition startup_calls :: "env \<Rightarrow> call list" where
  "startup_calls e =
     [SettingsGet ''errorReporting'', SettingsGet ''updatesEnabled'']
     @ (if settings e ''updatesEnabled'' then []
        else [SetAutoDownload False, SetAutoInstallOnAppQuit False])
     @ [NewBrowserWindow main_window_options, BuildWindowMenu,
        LoadURL (''file://'' @ dirname e @ ''/app/index.html'')]
     @ (if isDevelopment e then [OpenDevTools] else [])
     @ [WindowOn ''closed'', WindowOn ''ready-to-show'', WindowOn ''show'',
        WindowOn ''hide'', WindowOn ''minimize'']"

definition started :: "env \<Rightarrow> app_state \<Rightarrow> app_state" where
  "started e st =
     \<lparr> mainWindow = Window (main_window e),
       autoUpdater = (if settings e ''updatesEnabled'' then autoUpdater st
                      else \<lparr>autoDownload = False, autoInstallOnAppQuit = False\<rparr>),
       calls = calls st @ startup_calls e \<rparr>"

text \<open>The window that \<open>mainWindow\<close> holds, if any, carries the listeners of \<open>ready\<close>.\<close>

definition listeners_ok :: "app_state \<Rightarrow> bool" where
  "listeners_ok st =
     (case mainWindow st of Window w \<Rightarrow> listeners w = window_listeners
      | Null \<Rightarrow> True | Undefined \<Rightarrow> True)"

definition has_window :: "app_state \<Rightarrow> bool" where
  "has_window st = (case mainWindow st of Window w \<Rightarrow> True | Null \<Rightarrow> False | Undefined \<Rightarrow> False)"

text \<open>Both assignments that switch automatic updates off occur in a log.\<close>

definition updates_disabled_in :: "call list \<Rightarrow> bool" where
  "updates_disabled_in tr =
     (SetAutoDownload False \<in> set tr \<and> SetAutoInstallOnAppQuit False \<in> set tr)"

text \<open>Every update check of a log comes after both assignments.\<close>

definition checks_guarded :: "call list \<Rightarrow> bool" where
  "checks_guarded tr =
     (\<forall>tr1 tr2. tr = tr1 @ CheckForUpdates # tr2 \<longrightarrow> updates_disabled_in tr1)"

text \<open>
  The invariant behind C5: the checks of the log are guarded, and while a window exists
  both assignments have been made and both flags of the auto-updater are off.
\<close>

definition updates_inv :: "app_state \<Rightarrow> bool" where
  "updates_inv st =
     (checks_guarded (calls st)
      \<and> (has_window st \<longrightarrow>
            updates_disabled_in (calls st)
            \<and> \<not> autoDownload (autoUpdater st) \<and> \<not> autoInstallOnAppQuit (autoUpdater st)))"

text \<open>The state after a start on the host \<open>opted_out\<close>, and after its window was closed.\<close>

definition running_state :: app_state where
  "running_state = snd (ready opted_out (initial_state default_updater))"

definition closed_state :: app_state where
  "closed_state = snd (window_emit ''closed'' running_state)"

section \<open>Basic facts\<close>

lemma mainWindow_call [simp]: "mainWindow (call c st) = mainWindow st"
  by (simp add: call_def)

lemma autoUpdater_call [simp]: "autoUpdater (call c st) = autoUpdater st"
  by (simp add: call_def)

lemma calls_call [simp]: "calls (call c st) = calls st @ [c]"
  by (simp add: call_def)

lemma fail_startup_throws:
  "fail_startup e m st = (Inl (ReferenceError ''osDialog is not defined''), call (LogException m) st)"
  by (simp add: fail_startup_def and_then_def osDialog_showErrorBox_def osDialog_def)

lemma startup_tail:
  "register_window_handlers (create_window e (apply_settings e st)) = (Inr (), started e st)"
  by (simp add: register_window_handlers_def create_window_def apply_settings_def and_then_def
      window_on_def on_main_window_def call_def started_def startup_calls_def main_window_def
      new_BrowserWindow_def main_window_options_def window_listeners_def Let_def)

lemma ready_cases:
  obtains (failed) m where "ready e st = fail_startup e m st"
  | (threw) err where "ready e st = (Inl err, st)"
  | (passed) "ready e st = (Inr (), started e st)"
proof (cases "process_arch e \<in> set supported_architectures")
  case False
  then have "ready e st = fail_startup e
      (''Etcher does not support the current architecture: '' @ process_arch e) st"
    by (simp add: ready_def)
  then show thesis by (rule failed)
next
  case arch: True
  show thesis
  proof (cases "process_platform e \<in> set supported_platforms")
    case False
    with arch have "ready e st = fail_startup e
        (''Etcher does not support the current operating system: '' @ process_platform e) st"
      by (simp add: ready_def)
    then show thesis by (rule failed)
  next
    case os: True
    show thesis
    proof (cases "semver_lt (Some (os_platform e))
                    (map_of MINIMUM_SUPPORTED_VERSIONS (process_platform e))")
      case (Inl err)
      with arch os have "ready e st = (Inl err, st)"
        by (simp add: ready_def)
      then show thesis by (rule threw)
    next
      case (Inr b)
      show thesis
      proof (cases b)
        case True
        with Inr arch os have "ready e st = fail_startup e
            (''Etcher does not support '' @ process_platform e @ '' versions older than ''
               @ (case map_of MINIMUM_SUPPORTED_VERSIONS (process_platform e) of
                    None \<Rightarrow> ''undefined'' | Some v \<Rightarrow> v)) st"
          by (simp add: ready_def)
        then show thesis by (rule failed)
      next
        case False
        with Inr arch os have "ready e st = (Inr (), started e st)"
          by (simp add: ready_def startup_tail)
        then show thesis by (rule passed)
      qed
    qed
  qed
qed

lemma window_show_Window:
  "mainWindow st = Window w \<Longrightarrow>
     window_show st = (Inr (), call WindowShow (st\<lparr>mainWindow := Window (w\<lparr>visible := True\<rparr>)\<rparr>))"
  by (simp add: window_show_def on_main_window_def)

lemma window_hide_Window:
  "mainWindow st = Window w \<Longrightarrow>
     window_hide st = (Inr (), call WindowHide (st\<lparr>mainWindow := Window (w\<lparr>visible := False\<rparr>)\<rparr>))"
  by (simp add: window_hide_def on_main_window_def)

lemma window_hide_absent:
  "\<not> has_window st \<Longrightarrow> \<exists>msg. window_hide st = (Inl (TypeError msg), st)"
  by (cases "mainWindow st") (simp_all add: window_hide_def on_main_window_def has_window_def)

lemma window_show_absent:
  "\<not> has_window st \<Longrightarrow> \<exists>msg. window_show st = (Inl (TypeError msg), st)"
  by (cases "mainWindow st") (simp_all add: window_show_def on_main_window_def has_window_def)

lemma listeners_for_window:
  "listeners_for name window_listeners =
     (if name = ''closed'' then [OnClosed] else if name = ''ready-to-show'' then [OnReadyToShow]
      else if name = ''show'' then [OnShow] else if name = ''hide'' then [OnHide]
      else if name = ''minimize'' then [OnMinimize] else [])"
  by (simp add: listeners_for_def window_listeners_def)

lemma window_emit_registered:
  assumes "listeners_ok st" and "has_window st"
  shows "window_emit name st =
     (if name = ''closed'' then (Inr (), st\<lparr>mainWindow := Null\<rparr>)
      else if name = ''ready-to-show'' then window_show st
      else if name = ''show'' then (Inr (), call CheckForUpdates st)
      else if name = ''hide'' then (Inr (), call AppQuit st)
      else if name = ''minimize'' then window_hide st
      else (Inr (), st))"
proof -
  from assms obtain w where w: "mainWindow st = Window w" "listeners w = window_listeners"
    by (cases "mainWindow st") (simp_all add: listeners_ok_def has_window_def)
  have single: "\<And>h. run_window_handlers [h] st = run_window_handler h st"
    by (auto split: prod.splits sum.splits)
  show ?thesis
    by (simp add: window_emit_def w listeners_for_window single del: run_window_handlers.simps(2))
qed

lemma window_emit_absent: "\<not> has_window st \<Longrightarrow> window_emit name st = (Inr (), st)"
  by (cases "mainWindow st") (simp_all add: window_emit_def has_window_def)

lemma listeners_for_app:
  "listeners_for name app_listeners =
     (if name = ''ready'' then [Ready] else if name = ''window-all-closed'' then [WindowAllClosed]
      else if name = ''activate'' then [Activate]
      else if name = ''before-quit'' then [PreventQuit, PreventQuit, PreventQuit]
      else if name = ''will-quit'' then [PreventQuit, PreventQuit, PreventQuit]
      else if name = ''quit'' then [PreventQuit, PreventQuit]
      else [])"
  by (simp add: listeners_for_def app_listeners_def)

subsection \<open>The concrete hosts\<close>

lemma semver_not_below_linux: "semver_lt (Some ''5.15.0'') (Some ''3.10.0'') = Inr False"
  by code_simp

lemma opted_out_passes: "ready opted_out st = (Inr (), started opted_out st)"
  by (simp add: ready_def opted_out_def supported_architectures_def supported_platforms_def
      MINIMUM_SUPPORTED_VERSIONS_def semver_not_below_linux startup_tail)

lemma running_state_window: "mainWindow running_state = Window (main_window opted_out)"
  by (simp add: running_state_def opted_out_passes started_def)

lemma closed_state_Null: "mainWindow closed_state = Null"
  by (simp add: closed_state_def window_emit_def running_state_window main_window_def
      listeners_for_def window_listeners_def)

lemma deliver_ready_opted_out: "deliver opted_out (AppEvent ''ready'') st = started opted_out st"
  by (simp add: app_emit_def listeners_for_app opted_out_passes)

lemma shown_state: "run opted_out [AppEvent ''ready'', WindowEvent ''ready-to-show''] (initial_state default_updater)
   = call WindowShow ((started opted_out (initial_state default_updater))
       \<lparr>mainWindow := Window ((main_window opted_out)\<lparr>visible := True\<rparr>)\<rparr>)"
  by (simp add: deliver_ready_opted_out window_emit_def started_def main_window_def
      listeners_for_def window_listeners_def window_show_def on_main_window_def
      del: deliver.simps(1))

subsection \<open>The calls of one step\<close>

lemma new_calls_append: "calls st' = calls st @ new \<Longrightarrow> new_calls st st' = new"
  by (simp add: new_calls_def)

lemma new_calls_ready_cases:
  "new_calls st (snd (ready e st)) = [] \<and> mainWindow (snd (ready e st)) = mainWindow st
     \<and> autoUpdater (snd (ready e st)) = autoUpdater st
   \<or> (\<exists>m. new_calls st (snd (ready e st)) = [LogException m])
   \<or> ready e st = (Inr (), started e st) \<and> new_calls st (snd (ready e st)) = startup_calls e"
proof (cases e st rule: ready_cases)
  case (failed m)
  then have "new_calls st (snd (ready e st)) = [LogException m]"
    by (simp add: new_calls_def fail_startup_throws)
  then show ?thesis by blast
next
  case (threw err)
  then show ?thesis by (simp add: new_calls_def)
next
  case passed
  then show ?thesis by (simp add: new_calls_def started_def)
qed

section \<open>The startup guards\<close>

lemma unsupported_architecture_effect:
  assumes "process_arch e \<notin> set supported_architectures"
  shows "ready e st =
     (Inl (ReferenceError ''osDialog is not defined''),
      call (LogException (''Etcher does not support the current architecture: '' @ process_arch e)) st)"
  using assms by (simp add: ready_def fail_startup_throws)

text \<open>
  C2. On a host of the architecture \<open>ia32\<close>, which is outside the list
  \<open>['armv7l', 'x64']\<close>, the \<open>ready\<close> handler logs the exception and then throws the
  ReferenceError of the unbound \<open>osDialog\<close>: the log holds the one call of
  \<open>logException\<close>, no error box is shown and \<open>app.exit\<close> is not called. No window is
  created.
\<close>

theorem unsupported_architecture_throws:
  "process_arch ia32_host \<notin> set supported_architectures
   \<and> ready ia32_host (initial_state default_updater) =
       (Inl (ReferenceError ''osDialog is not defined''),
        \<lparr> mainWindow = Undefined, autoUpdater = default_updater,
          calls = [LogException ''Etcher does not support the current architecture: ia32''] \<rparr>)
   \<and> AppExit (GENERAL_ERROR ia32_host)
        \<notin> set (calls (snd (ready ia32_host (initial_state default_updater))))"
proof -
  have h: "process_arch ia32_host \<notin> set supported_architectures"
    by (simp add: ia32_host_def linux_3_9_def supported_architectures_def)
  have "process_arch ia32_host = ''ia32''"
    by (simp add: ia32_host_def linux_3_9_def)
  with h show ?thesis
    by (simp add: unsupported_architecture_effect initial_state_def call_def)
qed

text \<open>
  C10. Every platform that passes the check of line 69 has an entry in
  \<open>MINIMUM_SUPPORTED_VERSIONS\<close>: the lookup of line 83 does not yield \<open>undefined\<close>.
\<close>

theorem minimum_version_defined:
  "p \<in> set supported_platforms \<Longrightarrow> \<exists>v. map_of MINIMUM_SUPPORTED_VERSIONS p = Some v"
  by (auto simp: supported_platforms_def MINIMUM_SUPPORTED_VERSIONS_def)

theorem minimum_version_defined_witness:
  "''linux'' \<in> set supported_platforms
   \<and> (\<exists>v. map_of MINIMUM_SUPPORTED_VERSIONS ''linux'' = Some v)"
proof -
  have h: "''linux'' \<in> set supported_platforms" by (simp add: supported_platforms_def)
  from minimum_version_defined [OF h] h show ?thesis by simp
qed

section \<open>The handlers of the application\<close>

text \<open>
  C7. The event \<open>window-all-closed\<close> has one listener. It calls \<open>app.quit()\<close> if and
  only if the platform is not \<open>darwin\<close>; on \<open>darwin\<close> it does nothing.
\<close>

theorem window_all_closed_quits_unless_darwin:
  "app_emit e ''window-all-closed'' st =
     (Inr (), \<lparr>defaultPrevented = False\<rparr>,
      if process_platform e = ''darwin'' then st else call AppQuit st)
   \<and> (AppQuit \<in> set (new_calls st (window_all_closed e st))) = (process_platform e \<noteq> ''darwin'')"
  by (simp add: app_emit_def listeners_for_app window_all_closed_def new_calls_def)

theorem window_all_closed_quits_unless_darwin_witness:
  "new_calls (initial_state default_updater)
      (snd (snd (app_emit mac_host ''window-all-closed'' (initial_state default_updater)))) = []
   \<and> new_calls (initial_state default_updater)
      (snd (snd (app_emit opted_out ''window-all-closed'' (initial_state default_updater)))) = [AppQuit]"
  using window_all_closed_quits_unless_darwin [of mac_host "initial_state default_updater"]
        window_all_closed_quits_unless_darwin [of opted_out "initial_state default_updater"]
  by (simp add: mac_host_def opted_out_def new_calls_def initial_state_def)

subsection \<open>The listeners of the quit events\<close>

lemma quit_listener_is_PreventQuit:
  "name \<in> {''before-quit'', ''will-quit'', ''quit''} \<Longrightarrow> (name, h) \<in> set app_listeners \<Longrightarrow> h = PreventQuit"
  by (auto simp: app_listeners_def)

lemma prevent_quit_Window:
  "mainWindow st = Window w \<Longrightarrow>
     prevent_quit ev st =
       (Inr (), ev\<lparr>defaultPrevented := True\<rparr>,
        st\<lparr>mainWindow := Window (w\<lparr>visible := False\<rparr>), calls := calls st @ [PreventDefault, WindowHide]\<rparr>)"
  by (simp add: prevent_quit_def window_hide_def on_main_window_def call_def)

lemma prevent_quit_absent:
  "\<not> has_window st \<Longrightarrow>
     \<exists>msg. prevent_quit ev st = (Inl (TypeError msg), ev\<lparr>defaultPrevented := True\<rparr>, call PreventDefault st)"
  by (cases "mainWindow st") (simp_all add: prevent_quit_def window_hide_def on_main_window_def has_window_def)

lemma prevent_quit_prevents: "defaultPrevented (fst (snd (prevent_quit ev st)))"
  by (simp add: prevent_quit_def split: prod.split)

lemma run_app_handler_keeps_prevented:
  "defaultPrevented ev \<Longrightarrow> defaultPrevented (fst (snd (run_app_handler e h ev st)))"
  by (cases h) (simp_all add: prevent_quit_prevents split: prod.split)

lemma dispatch_keeps_prevented:
  "defaultPrevented ev \<Longrightarrow> defaultPrevented (fst (snd (dispatch e hs ev st)))"
proof (induction hs arbitrary: ev st)
  case Nil
  then show ?case by simp
next
  case (Cons h hs)
  obtain r ev' st' where step: "run_app_handler e h ev st = (r, ev', st')"
    by (cases "run_app_handler e h ev st") auto
  with Cons.prems run_app_handler_keeps_prevented [of ev e h st] have "defaultPrevented ev'"
    by simp
  with Cons.IH [of ev' st'] step show ?case
    by (cases r) simp_all
qed

lemma dispatch_PreventQuit_prevents:
  "defaultPrevented (fst (snd (dispatch e (PreventQuit # hs) ev st)))"
proof -
  obtain r ev' st' where step: "prevent_quit ev st = (r, ev', st')"
    by (cases "prevent_quit ev st") auto
  with prevent_quit_prevents [of ev st] have "defaultPrevented ev'" by simp
  with dispatch_keeps_prevented [of ev' e hs st'] step show ?thesis
    by (cases r) simp_all
qed

lemma quit_events_prevented:
  "name \<in> {''before-quit'', ''will-quit'', ''quit''} \<Longrightarrow>
     defaultPrevented (fst (snd (app_emit e name st)))"
  by (auto simp: app_emit_def listeners_for_app dispatch_PreventQuit_prevents
           simp del: dispatch.simps)

lemma quit_sequence_cancelled: "quit_sequence e st = (False, snd (snd (app_emit e ''before-quit'' st)))"
proof -
  obtain r ev1 st1 where emit: "app_emit e ''before-quit'' st = (r, ev1, st1)"
    by (cases "app_emit e ''before-quit'' st") auto
  with quit_events_prevented [of "''before-quit''" e st] have "defaultPrevented ev1"
    by simp
  with emit show ?thesis
    by (simp add: quit_sequence_def)
qed

text \<open>
  C1. Every listener registered for \<open>before-quit\<close>, \<open>will-quit\<close> or \<open>quit\<close>
  prevents the default of its event, in every state. Where \<open>mainWindow\<close> holds a window
  the listener returns normally after exactly the calls \<open>preventDefault\<close> and \<open>hide\<close>,
  and the window is hidden. Each of the three events has a listener, the event comes back
  with its default prevented, and the quit sequence of the host never ends the process.
  (What happens where \<open>mainWindow\<close> holds no window is C9.)
\<close>

theorem quit_handlers_prevent_default_and_hide:
  assumes "name \<in> {''before-quit'', ''will-quit'', ''quit''}"
      and "(name, h) \<in> set app_listeners"
  shows "defaultPrevented (fst (snd (run_app_handler e h ev st)))
       \<and> (\<forall>w. mainWindow st = Window w \<longrightarrow>
             run_app_handler e h ev st =
               (Inr (), ev\<lparr>defaultPrevented := True\<rparr>,
                st\<lparr>mainWindow := Window (w\<lparr>visible := False\<rparr>),
                   calls := calls st @ [PreventDefault, WindowHide]\<rparr>))
       \<and> listeners_for name app_listeners \<noteq> []
       \<and> defaultPrevented (fst (snd (app_emit e name st)))
       \<and> \<not> fst (quit_sequence e st)"
proof -
  from assms have h: "h = PreventQuit" by (rule quit_listener_is_PreventQuit)
  from assms(1) have "listeners_for name app_listeners \<noteq> []"
    by (auto simp: listeners_for_app)
  with h assms(1) show ?thesis
    by (simp add: prevent_quit_prevents prevent_quit_Window quit_events_prevented
        quit_sequence_cancelled del: insert_iff)
qed

theorem quit_handlers_prevent_default_and_hide_witness:
  "''before-quit'' \<in> {''before-quit'', ''will-quit'', ''quit''}
   \<and> (''before-quit'', PreventQuit) \<in> set app_listeners
   \<and> mainWindow running_state = Window (main_window opted_out)
   \<and> run_app_handler opted_out PreventQuit \<lparr>defaultPrevented = False\<rparr> running_state =
       (Inr (), \<lparr>defaultPrevented = True\<rparr>,
        running_state\<lparr>mainWindow := Window ((main_window opted_out)\<lparr>visible := False\<rparr>),
                      calls := calls running_state @ [PreventDefault, WindowHide]\<rparr>)
   \<and> \<not> fst (quit_sequence opted_out running_state)"
proof -
  have h1: "''before-quit'' \<in> {''before-quit'', ''will-quit'', ''quit''}" by simp
  have h2: "(''before-quit'', PreventQuit) \<in> set app_listeners" by (simp add: app_listeners_def)
  from quit_handlers_prevent_default_and_hide [OF h1 h2, of opted_out "\<lparr>defaultPrevented = False\<rparr>" running_state]
    running_state_window h1 h2
  show ?thesis by simp
qed

text \<open>
  C9. The listeners of the quit events read \<open>mainWindow.hide\<close> without a check. Where
  \<open>mainWindow\<close> is \<open>null\<close> (after the \<open>closed\<close> handler) or \<open>undefined\<close> (before the
  first window is created), each of them throws a TypeError after its call of
  \<open>preventDefault\<close>; the round of the event ends with that throw, and no \<open>hide\<close> is
  called.
\<close>

theorem quit_handlers_fail_without_window:
  assumes "name \<in> {''before-quit'', ''will-quit'', ''quit''}"
      and "(name, h) \<in> set app_listeners"
      and "mainWindow st = Null \<or> mainWindow st = Undefined"
  shows "(\<exists>msg. run_app_handler e h ev st =
            (Inl (TypeError msg), ev\<lparr>defaultPrevented := True\<rparr>, call PreventDefault st))
       \<and> (\<exists>msg. app_emit e name st =
            (Inl (TypeError msg), \<lparr>defaultPrevented = True\<rparr>, call PreventDefault st))
       \<and> WindowHide \<notin> set (new_calls st (snd (snd (app_emit e name st))))"
proof -
  from assms(1,2) have h: "h = PreventQuit" by (rule quit_listener_is_PreventQuit)
  from assms(3) have absent: "\<not> has_window st" by (auto simp: has_window_def)
  have one: "\<exists>msg. prevent_quit ev' st =
      (Inl (TypeError msg), ev'\<lparr>defaultPrevented := True\<rparr>, call PreventDefault st)" for ev'
    using absent by (rule prevent_quit_absent)
  from one [of "\<lparr>defaultPrevented = False\<rparr>"] obtain msg where
    msg: "prevent_quit \<lparr>defaultPrevented = False\<rparr> st =
      (Inl (TypeError msg), \<lparr>defaultPrevented = True\<rparr>, call PreventDefault st)"
    by auto
  from assms(1) have emit: "app_emit e name st =
      (Inl (TypeError msg), \<lparr>defaultPrevented = True\<rparr>, call PreventDefault st)"
    by (auto simp: app_emit_def listeners_for_app msg)
  show ?thesis using one [of ev] h emit by (simp add: new_calls_def)
qed

theorem quit_handlers_fail_without_window_witness:
  "''quit'' \<in> {''before-quit'', ''will-quit'', ''quit''}
   \<and> (''quit'', PreventQuit) \<in> set app_listeners
   \<and> mainWindow (initial_state default_updater) = Undefined
   \<and> mainWindow closed_state = Null
   \<and> (\<exists>msg. app_emit opted_out ''quit'' (initial_state default_updater) =
         (Inl (TypeError msg), \<lparr>defaultPrevented = True\<rparr>,
          call PreventDefault (initial_state default_updater)))
   \<and> (\<exists>msg. app_emit opted_out ''quit'' closed_state =
         (Inl (TypeError msg), \<lparr>defaultPrevented = True\<rparr>, call PreventDefault closed_state))"
proof -
  have h1: "''quit'' \<in> {''before-quit'', ''will-quit'', ''quit''}" by simp
  have h2: "(''quit'', PreventQuit) \<in> set app_listeners" by (simp add: app_listeners_def)
  have u: "mainWindow (initial_state default_updater) = Undefined" by (simp add: initial_state_def)
  then have h3: "mainWindow (initial_state default_updater) = Null
      \<or> mainWindow (initial_state default_updater) = Undefined" by simp
  have h4: "mainWindow closed_state = Null \<or> mainWindow closed_state = Undefined"
    by (simp add: closed_state_Null)
  from quit_handlers_fail_without_window [OF h1 h2 h3, of opted_out]
       quit_handlers_fail_without_window [OF h1 h2 h4, of opted_out]
       h1 h2 u closed_state_Null
  show ?thesis by blast
qed

section \<open>Invariants of a run\<close>

text \<open>
  A run starts in the initial state and delivers any sequence of events. Three facts are
  carried along a run: the window that \<open>mainWindow\<close> holds has the five listeners of
  \<open>ready\<close>; a hidden window stays hidden under every event but \<open>ready-to-show\<close>; with
  updates switched off, every update check comes after the two assignments.
\<close>

lemma mainWindow_window_hide:
  "mainWindow (snd (window_hide st)) =
     (case mainWindow st of Window w \<Rightarrow> Window (w\<lparr>visible := False\<rparr>) | Null \<Rightarrow> Null | Undefined \<Rightarrow> Undefined)"
  by (cases "mainWindow st") (simp_all add: window_hide_def on_main_window_def)

lemma mainWindow_window_show:
  "mainWindow (snd (window_show st)) =
     (case mainWindow st of Window w \<Rightarrow> Window (w\<lparr>visible := True\<rparr>) | Null \<Rightarrow> Null | Undefined \<Rightarrow> Undefined)"
  by (cases "mainWindow st") (simp_all add: window_show_def on_main_window_def)

lemma mainWindow_prevent_quit:
  "mainWindow (snd (snd (prevent_quit ev st))) =
     (case mainWindow st of Window w \<Rightarrow> Window (w\<lparr>visible := False\<rparr>) | Null \<Rightarrow> Null | Undefined \<Rightarrow> Undefined)"
  by (cases "mainWindow st") (simp_all add: prevent_quit_def window_hide_def on_main_window_def)

lemma mainWindow_ready:
  "mainWindow (snd (ready e st)) = mainWindow st \<or> mainWindow (snd (ready e st)) = Window (main_window e)"
  by (cases e st rule: ready_cases) (simp_all add: fail_startup_throws started_def)

lemma mainWindow_activate:
  "mainWindow (activate e st) = mainWindow st \<or> mainWindow (activate e st) = Window (main_window e)"
  using mainWindow_ready [of e "call (AppEmit ''ready'') st"]
  by (auto simp: activate_def)

lemma mainWindow_run_app_handler:
  "mainWindow (snd (snd (run_app_handler e h ev st))) = mainWindow st
   \<or> mainWindow (snd (snd (run_app_handler e h ev st))) = Window (main_window e)
   \<or> (\<exists>w. mainWindow st = Window w \<and>
        mainWindow (snd (snd (run_app_handler e h ev st))) = Window (w\<lparr>visible := False\<rparr>))"
proof (cases h)
  case Ready
  then show ?thesis using mainWindow_ready [of e st] by (auto split: prod.split)
next
  case WindowAllClosed
  then show ?thesis by (simp add: window_all_closed_def)
next
  case Activate
  then show ?thesis using mainWindow_activate [of e st] by auto
next
  case PreventQuit
  then show ?thesis by (cases "mainWindow st") (simp_all add: mainWindow_prevent_quit)
qed

lemma dispatch_invariant:
  assumes step: "\<And>h ev st. P st \<Longrightarrow> P (snd (snd (run_app_handler e h ev st)))"
      and "P st"
  shows "P (snd (snd (dispatch e hs ev st)))"
  using \<open>P st\<close>
proof (induction hs arbitrary: ev st)
  case Nil
  then show ?case by simp
next
  case (Cons h hs)
  obtain r ev' st' where run: "run_app_handler e h ev st = (r, ev', st')"
    by (cases "run_app_handler e h ev st") auto
  with step [OF Cons.prems, of h ev] have "P st'" by simp
  with Cons.IH [of st' ev'] run show ?case by (cases r) simp_all
qed

lemma listeners_ok_run_app_handler:
  "listeners_ok st \<Longrightarrow> listeners_ok (snd (snd (run_app_handler e h ev st)))"
  using mainWindow_run_app_handler [of e h ev st]
  by (auto simp: listeners_ok_def main_window_def split: window_ref.splits)


lemma listeners_ok_app_emit: "listeners_ok st \<Longrightarrow> listeners_ok (snd (snd (app_emit e name st)))"
  unfolding app_emit_def by (rule dispatch_invariant) (auto intro: listeners_ok_run_app_handler)


lemma window_emit_cases:
  assumes "listeners_ok st"
  shows "window_emit name st = (Inr (), st)
       \<or> has_window st \<and>
         (name = ''closed'' \<and> window_emit name st = (Inr (), st\<lparr>mainWindow := Null\<rparr>)
          \<or> name = ''ready-to-show'' \<and> window_emit name st = window_show st
          \<or> name = ''show'' \<and> window_emit name st = (Inr (), call CheckForUpdates st)
          \<or> name = ''hide'' \<and> window_emit name st = (Inr (), call AppQuit st)
          \<or> name = ''minimize'' \<and> window_emit name st = window_hide st)"
proof (cases "has_window st")
  case True
  with assms window_emit_registered [of st name] show ?thesis by auto
next
  case False
  then show ?thesis by (simp add: window_emit_absent)
qed

lemma listeners_ok_window_emit:
  "listeners_ok st \<Longrightarrow> listeners_ok (snd (window_emit name st))"
  using window_emit_cases [of st name]
  by (auto simp: listeners_ok_def mainWindow_window_hide mainWindow_window_show
           split: window_ref.splits)

lemma listeners_ok_deliver: "listeners_ok st \<Longrightarrow> listeners_ok (deliver e x st)"
  by (cases x) (simp_all add: listeners_ok_app_emit listeners_ok_window_emit)

lemma listeners_ok_run: "listeners_ok st \<Longrightarrow> listeners_ok (run e xs st)"
  by (induction xs arbitrary: st) (simp_all add: listeners_ok_deliver)

lemma listeners_ok_initial: "listeners_ok (initial_state au)"
  by (simp add: listeners_ok_def initial_state_def)

lemma listeners_ok_reachable: "listeners_ok (run e xs (initial_state au))"
  by (rule listeners_ok_run) (rule listeners_ok_initial)



subsection \<open>Update checks come after the assignments\<close>

lemma updates_disabled_in_append:
  "updates_disabled_in tr \<Longrightarrow> updates_disabled_in (tr @ new)"
  by (auto simp: updates_disabled_in_def)

lemma checks_guarded_append:
  assumes "checks_guarded tr"
      and "CheckForUpdates \<in> set new \<Longrightarrow> updates_disabled_in tr"
  shows "checks_guarded (tr @ new)"
  unfolding checks_guarded_def
proof (intro allI impI)
  fix tr1 tr2
  assume eq: "tr @ new = tr1 @ CheckForUpdates # tr2"
  then obtain us where
    "tr = tr1 @ us \<and> us @ new = CheckForUpdates # tr2 \<or> tr @ us = tr1 \<and> new = us @ CheckForUpdates # tr2"
    by (auto simp: append_eq_append_conv2)
  then show "updates_disabled_in tr1"
  proof
    assume a: "tr = tr1 @ us \<and> us @ new = CheckForUpdates # tr2"
    show ?thesis
    proof (cases us)
      case Nil
      with a assms(2) show ?thesis by simp
    next
      case (Cons u us')
      with a have "tr = tr1 @ CheckForUpdates # us'" by simp
      with assms(1) show ?thesis by (auto simp: checks_guarded_def)
    qed
  next
    assume b: "tr @ us = tr1 \<and> new = us @ CheckForUpdates # tr2"
    then have "CheckForUpdates \<in> set new" by simp
    with assms(2) have "updates_disabled_in tr" by simp
    with b show ?thesis by (auto intro: updates_disabled_in_append)
  qed
qed

lemma updates_inv_step:
  assumes "updates_inv st"
      and "calls st' = calls st @ new"
      and "CheckForUpdates \<in> set new \<Longrightarrow> has_window st"
      and "has_window st' \<Longrightarrow>
             has_window st \<and> autoUpdater st' = autoUpdater st
             \<or> updates_disabled_in (calls st') \<and> \<not> autoDownload (autoUpdater st')
               \<and> \<not> autoInstallOnAppQuit (autoUpdater st')"
  shows "updates_inv st'"
proof -
  from assms(1,3) have "CheckForUpdates \<in> set new \<Longrightarrow> updates_disabled_in (calls st)"
    by (simp add: updates_inv_def)
  moreover from assms(1) have "checks_guarded (calls st)"
    by (simp add: updates_inv_def)
  ultimately have "checks_guarded (calls st @ new)"
    by (simp add: checks_guarded_append)
  moreover have "updates_disabled_in (calls st') \<and> \<not> autoDownload (autoUpdater st')
      \<and> \<not> autoInstallOnAppQuit (autoUpdater st')" if "has_window st'"
    using assms(4) [OF that] assms(1,2)
    by (auto simp: updates_inv_def intro: updates_disabled_in_append)
  ultimately show ?thesis using assms(2) by (simp add: updates_inv_def)
qed

lemma window_hide_effect:
  "calls (snd (window_hide st)) = calls st @ (if has_window st then [WindowHide] else [])"
  "autoUpdater (snd (window_hide st)) = autoUpdater st"
  "has_window (snd (window_hide st)) = has_window st"
  by (cases "mainWindow st"; simp add: window_hide_def on_main_window_def has_window_def)+

lemma window_show_effect:
  "calls (snd (window_show st)) = calls st @ (if has_window st then [WindowShow] else [])"
  "autoUpdater (snd (window_show st)) = autoUpdater st"
  "has_window (snd (window_show st)) = has_window st"
  by (cases "mainWindow st"; simp add: window_show_def on_main_window_def has_window_def)+

lemma prevent_quit_effect:
  "calls (snd (snd (prevent_quit ev st))) =
     calls st @ PreventDefault # (if has_window st then [WindowHide] else [])"
  "autoUpdater (snd (snd (prevent_quit ev st))) = autoUpdater st"
  "has_window (snd (snd (prevent_quit ev st))) = has_window st"
  by (cases "mainWindow st"; simp add: prevent_quit_def window_hide_def on_main_window_def has_window_def)+

lemma has_window_call [simp]: "has_window (call c st) = has_window st"
  by (simp add: has_window_def)

lemma startup_calls_disable:
  "\<not> settings e ''updatesEnabled'' \<Longrightarrow> updates_disabled_in (tr @ startup_calls e)"
  by (simp add: startup_calls_def updates_disabled_in_def)

lemma startup_calls_no_check: "CheckForUpdates \<notin> set (startup_calls e)"
  by (simp add: startup_calls_def)

lemma updates_inv_ready:
  assumes "\<not> settings e ''updatesEnabled''" and "updates_inv st"
  shows "updates_inv (snd (ready e st))"
proof (cases e st rule: ready_cases)
  case (failed m)
  have "updates_inv (call (LogException m) st)"
    by (rule updates_inv_step [OF assms(2), where new = "[LogException m]"])
       (simp_all add: has_window_def)
  with failed show ?thesis by (simp add: fail_startup_throws)
next
  case (threw err)
  with assms(2) show ?thesis by simp
next
  case passed
  have "updates_inv (started e st)"
    by (rule updates_inv_step [OF assms(2), where new = "startup_calls e"])
       (simp_all add: started_def startup_calls_disable [OF assms(1)] startup_calls_no_check assms(1))
  with passed show ?thesis by simp
qed

lemma updates_inv_call:
  "updates_inv st \<Longrightarrow> c \<noteq> CheckForUpdates \<or> has_window st \<Longrightarrow> updates_inv (call c st)"
  by (rule updates_inv_step [where st = st and new = "[c]"]) auto

lemma updates_inv_run_app_handler:
  assumes "\<not> settings e ''updatesEnabled''" and "updates_inv st"
  shows "updates_inv (snd (snd (run_app_handler e h ev st)))"
proof (cases h)
  case Ready
  with updates_inv_ready [OF assms] show ?thesis by (cases "ready e st") simp
next
  case WindowAllClosed
  with assms(2) show ?thesis by (simp add: window_all_closed_def updates_inv_call)
next
  case Activate
  with assms show ?thesis by (simp add: activate_def updates_inv_ready updates_inv_call)
next
  case PreventQuit
  have "updates_inv (snd (snd (prevent_quit ev st)))"
    by (rule updates_inv_step [OF assms(2),
          where new = "PreventDefault # (if has_window st then [WindowHide] else [])"])
       (simp_all add: prevent_quit_effect)
  with PreventQuit show ?thesis by simp
qed

lemma updates_inv_window_emit:
  assumes "listeners_ok st" and "updates_inv st"
  shows "updates_inv (snd (window_emit name st))"
proof -
  have closed: "updates_inv (st\<lparr>mainWindow := Null\<rparr>)"
    using assms(2) by (rule updates_inv_step [where new = "[]"]) (simp_all add: has_window_def)
  have hide: "updates_inv (snd (window_hide st))"
    using assms(2)
    by (rule updates_inv_step [where new = "if has_window st then [WindowHide] else []"])
       (simp_all add: window_hide_effect)
  have shw: "updates_inv (snd (window_show st))"
    using assms(2)
    by (rule updates_inv_step [where new = "if has_window st then [WindowShow] else []"])
       (simp_all add: window_show_effect)
  have chk: "has_window st \<Longrightarrow> updates_inv (call CheckForUpdates st)"
    using assms(2) by (simp add: updates_inv_call)
  have quit: "updates_inv (call AppQuit st)"
    using assms(2) by (simp add: updates_inv_call)
  from window_emit_cases [OF assms(1), of name]
  consider "window_emit name st = (Inr (), st)"
    | "window_emit name st = (Inr (), st\<lparr>mainWindow := Null\<rparr>)"
    | "window_emit name st = window_show st"
    | "has_window st" "window_emit name st = (Inr (), call CheckForUpdates st)"
    | "window_emit name st = (Inr (), call AppQuit st)"
    | "window_emit name st = window_hide st"
    by blast
  then show ?thesis
  proof cases
    case 1 with assms(2) show ?thesis by simp
  next
    case 2 with closed show ?thesis by simp
  next
    case 3 with shw show ?thesis by simp
  next
    case 4 with chk show ?thesis by simp
  next
    case 5 with quit show ?thesis by simp
  next
    case 6 with hide show ?thesis by simp
  qed
qed

lemma updates_inv_run:
  assumes "\<not> settings e ''updatesEnabled''"
  shows "listeners_ok st \<Longrightarrow> updates_inv st \<Longrightarrow> updates_inv (run e xs st)"
proof (induction xs arbitrary: st)
  case Nil
  then show ?case by simp
next
  case (Cons x xs)
  have "updates_inv (deliver e x st)"
  proof (cases x)
    case (AppEvent name)
    have "updates_inv (snd (snd (dispatch e (listeners_for name app_listeners) \<lparr>defaultPrevented = False\<rparr> st)))"
      by (rule dispatch_invariant [where P = updates_inv])
         (auto intro: updates_inv_run_app_handler [OF assms] Cons.prems)
    with AppEvent show ?thesis by (simp add: app_emit_def)
  next
    case (WindowEvent name)
    with Cons.prems show ?thesis by (simp add: updates_inv_window_emit)
  qed
  with Cons.IH [of "deliver e x st"] Cons.prems(1) show ?case
    by (simp add: listeners_ok_deliver)
qed

lemma updates_inv_initial: "updates_inv (initial_state au)"
  by (simp add: updates_inv_def initial_state_def checks_guarded_def has_window_def)

lemma updates_inv_reachable:
  "\<not> settings e ''updatesEnabled'' \<Longrightarrow> updates_inv (run e xs (initial_state au))"
  by (rule updates_inv_run) (simp_all add: listeners_ok_initial updates_inv_initial)

section \<open>The main window and the updater\<close>

text \<open>
  C6. In every state of a run in which the main window exists, the event \<open>show\<close> of
  the window has one listener, and its round makes exactly one call:
  \<open>autoUpdater.checkForUpdates()\<close>.
\<close>

theorem show_event_checks_for_updates_once:
  assumes "st = run e events (initial_state au)" and "has_window st"
  shows "window_emit ''show'' st = (Inr (), call CheckForUpdates st)
       \<and> new_calls st (snd (window_emit ''show'' st)) = [CheckForUpdates]
       \<and> count_list (new_calls st (snd (window_emit ''show'' st))) CheckForUpdates = 1"
proof -
  from assms(1) have "listeners_ok st" by (simp add: listeners_ok_reachable)
  with assms(2) have "window_emit ''show'' st = (Inr (), call CheckForUpdates st)"
    by (simp add: window_emit_registered)
  then show ?thesis by (simp add: new_calls_def)
qed

theorem show_event_checks_for_updates_once_witness:
  "has_window (run opted_out [AppEvent ''ready'', WindowEvent ''ready-to-show''] (initial_state default_updater))
   \<and> new_calls
        (run opted_out [AppEvent ''ready'', WindowEvent ''ready-to-show''] (initial_state default_updater))
        (run opted_out [AppEvent ''ready'', WindowEvent ''ready-to-show'', WindowEvent ''show'']
           (initial_state default_updater))
      = [CheckForUpdates]"
proof -
  let ?st = "run opted_out [AppEvent ''ready'', WindowEvent ''ready-to-show''] (initial_state default_updater)"
  have h: "has_window ?st" by (simp only: shown_state) (simp add: has_window_def)
  have step: "run opted_out [AppEvent ''ready'', WindowEvent ''ready-to-show'', WindowEvent ''show'']
      (initial_state default_updater) = snd (window_emit ''show'' ?st)"
    by simp
  from show_event_checks_for_updates_once [OF refl h]
  have "new_calls ?st (snd (window_emit ''show'' ?st)) = [CheckForUpdates]"
    by blast
  with h show ?thesis unfolding step by blast
qed



text \<open>
  C5. Let \<open>settings.get('updatesEnabled')\<close> resolve to false. Whenever \<open>ready\<close> reads
  the setting it sets \<open>autoDownload\<close> and \<open>autoInstallOnAppQuit\<close> to false right after
  the read, and makes no update check itself. In a run, every call of
  \<open>checkForUpdates\<close> has both assignments before it in the log, and while a window
  exists both flags are off.
\<close>

theorem updates_disabled_before_any_check:
  assumes "\<not> settings e ''updatesEnabled''"
      and "r = run e events (initial_state au)"
  shows "(SettingsGet ''updatesEnabled'' \<in> set (new_calls st (snd (ready e st))) \<longrightarrow>
            \<not> autoDownload (autoUpdater (snd (ready e st)))
            \<and> \<not> autoInstallOnAppQuit (autoUpdater (snd (ready e st)))
            \<and> (\<exists>post. new_calls st (snd (ready e st)) =
                  [SettingsGet ''errorReporting'', SettingsGet ''updatesEnabled'',
                   SetAutoDownload False, SetAutoInstallOnAppQuit False] @ post)
            \<and> CheckForUpdates \<notin> set (new_calls st (snd (ready e st))))
       \<and> (calls r = tr1 @ CheckForUpdates # tr2 \<longrightarrow>
            SetAutoDownload False \<in> set tr1 \<and> SetAutoInstallOnAppQuit False \<in> set tr1)
       \<and> (has_window r \<longrightarrow>
            \<not> autoDownload (autoUpdater r) \<and> \<not> autoInstallOnAppQuit (autoUpdater r))"
proof (intro conjI impI)
  assume "SettingsGet ''updatesEnabled'' \<in> set (new_calls st (snd (ready e st)))"
  with new_calls_ready_cases [of st e]
  have passed: "ready e st = (Inr (), started e st)"
    and calls: "new_calls st (snd (ready e st)) = startup_calls e"
    by auto
  from passed assms(1) show "\<not> autoDownload (autoUpdater (snd (ready e st)))"
    "\<not> autoInstallOnAppQuit (autoUpdater (snd (ready e st)))"
    by (simp_all add: started_def)
  from calls assms(1) show "\<exists>post. new_calls st (snd (ready e st)) =
      [SettingsGet ''errorReporting'', SettingsGet ''updatesEnabled'',
       SetAutoDownload False, SetAutoInstallOnAppQuit False] @ post"
    by (simp add: startup_calls_def)
  from calls show "CheckForUpdates \<notin> set (new_calls st (snd (ready e st)))"
    by (simp add: startup_calls_no_check)
next
  have inv: "updates_inv r" using assms by (simp add: updates_inv_reachable)
  {
    assume "calls r = tr1 @ CheckForUpdates # tr2"
    with inv have "updates_disabled_in tr1"
      by (auto simp: updates_inv_def checks_guarded_def)
    then show "SetAutoDownload False \<in> set tr1" "SetAutoInstallOnAppQuit False \<in> set tr1"
      by (simp_all add: updates_disabled_in_def)
  }
  {
    assume "has_window r"
    with inv show "\<not> autoDownload (autoUpdater r)" "\<not> autoInstallOnAppQuit (autoUpdater r)"
      by (simp_all add: updates_inv_def)
  }
qed

theorem updates_disabled_before_any_check_witness:
  "\<not> settings opted_out ''updatesEnabled''
   \<and> SettingsGet ''updatesEnabled''
        \<in> set (new_calls (initial_state default_updater) (snd (ready opted_out (initial_state default_updater))))
   \<and> \<not> autoDownload (autoUpdater (snd (ready opted_out (initial_state default_updater))))
   \<and> \<not> autoInstallOnAppQuit (autoUpdater (snd (ready opted_out (initial_state default_updater))))
   \<and> calls (run opted_out [AppEvent ''ready'', WindowEvent ''ready-to-show'', WindowEvent ''show'']
              (initial_state default_updater))
        = (startup_calls opted_out @ [WindowShow]) @ CheckForUpdates # []
   \<and> SetAutoDownload False \<in> set (startup_calls opted_out @ [WindowShow])
   \<and> SetAutoInstallOnAppQuit False \<in> set (startup_calls opted_out @ [WindowShow])"
proof -
  let ?i = "initial_state default_updater"
  let ?events = "[AppEvent ''ready'', WindowEvent ''ready-to-show'', WindowEvent ''show'']"
  have off: "\<not> settings opted_out ''updatesEnabled''" by (simp add: opted_out_def)
  have read: "SettingsGet ''updatesEnabled'' \<in> set (new_calls ?i (snd (ready opted_out ?i)))"
    by (simp add: opted_out_passes started_def new_calls_def startup_calls_def)
  have "run opted_out ?events ?i =
      snd (window_emit ''show'' (run opted_out [AppEvent ''ready'', WindowEvent ''ready-to-show''] ?i))"
    by simp
  also have "\<dots> = call CheckForUpdates (run opted_out [AppEvent ''ready'', WindowEvent ''ready-to-show''] ?i)"
    by (simp only: shown_state)
       (simp add: window_emit_def started_def main_window_def listeners_for_def window_listeners_def)
  finally have log: "calls (run opted_out ?events ?i) =
      (startup_calls opted_out @ [WindowShow]) @ CheckForUpdates # []"
    by (simp only: shown_state) (simp add: started_def initial_state_def)
  from updates_disabled_before_any_check
         [OF off refl, of ?i ?events default_updater "startup_calls opted_out @ [WindowShow]" "[]"]
       off read log
  show ?thesis by blast
qed

section \<open>Where the handler departs from its comments\<close>

text \<open>
  The check of line 84 compares \<open>platform()\<close> of the \<open>os\<close> module with the minimum
  version. That call yields the platform identifier, which is no version: on every
  supported platform the comparison throws, whatever the version of the operating system
  is. The handler does not read that version at all.
\<close>

lemma semver_rejects_platform_names:
  "p \<in> set supported_platforms \<Longrightarrow> \<exists>msg. semver_lt (Some p) v = Inl (TypeError msg)"
  by (auto simp: supported_platforms_def semver_lt_def SemVer_def parse_version_def)

lemma ready_throws_on_platform_name:
  assumes "process_arch e \<in> set supported_architectures"
      and "process_platform e \<in> set supported_platforms"
      and "os_platform e = process_platform e"
  shows "\<exists>msg. ready e st = (Inl (TypeError msg), st)"
proof -
  from semver_rejects_platform_names [OF assms(2)] obtain msg where
    "semver_lt (Some (process_platform e)) (map_of MINIMUM_SUPPORTED_VERSIONS (process_platform e))
       = Inl (TypeError msg)"
    by blast
  with assms show ?thesis by (simp add: ready_def)
qed

lemma ready_ignores_os_release: "ready (e\<lparr>os_release := v\<rparr>) st = ready e st"
  by (simp add: ready_def fail_startup_throws apply_settings_def create_window_def isDevelopment_def
      Let_def split: sum.split bool.split)

text \<open>
  C3. On Linux 3.9.0, which is below the minimum 3.10.0, the handler does not log, show
  the error box or exit: it throws \<open>Invalid Version: linux\<close> before making any call.
\<close>

theorem old_linux_is_not_detected:
  "process_platform linux_3_9 \<in> set supported_platforms
   \<and> semver_lt (Some (os_release linux_3_9))
        (map_of MINIMUM_SUPPORTED_VERSIONS (process_platform linux_3_9)) = Inr True
   \<and> ready linux_3_9 (initial_state default_updater) =
       (Inl (TypeError ''Invalid Version: linux''), initial_state default_updater)"
  by code_simp

text \<open>
  The branch of line 93 is empty, so the value of \<open>errorReporting\<close> has no effect on
  the handler.
\<close>

lemma ready_ignores_errorReporting:
  "ready (e\<lparr>settings := (settings e)(''errorReporting'' := b)\<rparr>) st = ready e st"
  by (simp add: ready_def fail_startup_throws apply_settings_def create_window_def isDevelopment_def
      Let_def split: sum.split bool.split)

text \<open>
  C4. With \<open>errorReporting\<close> false in a build that is not a development build, the
  handler makes no call between the two reads of the settings and the creation of the
  window other than the two assignments of the updater: nothing disables analytics. The
  result is the same as with \<open>errorReporting\<close> true. Where \<open>platform()\<close> yields the
  platform identifier the handler throws before it reads the setting.
\<close>

theorem error_reporting_off_changes_nothing:
  "\<not> settings opted_out ''errorReporting'' \<and> \<not> isDevelopment opted_out
   \<and> ready opted_out (initial_state default_updater) =
       (Inr (),
        \<lparr> mainWindow = Window (main_window opted_out),
          autoUpdater = \<lparr>autoDownload = False, autoInstallOnAppQuit = False\<rparr>,
          calls = [SettingsGet ''errorReporting'', SettingsGet ''updatesEnabled'',
                   SetAutoDownload False, SetAutoInstallOnAppQuit False,
                   NewBrowserWindow main_window_options, BuildWindowMenu,
                   LoadURL ''file:///opt/Etcher/lib/gui/app/index.html'',
                   WindowOn ''closed'', WindowOn ''ready-to-show'', WindowOn ''show'',
                   WindowOn ''hide'', WindowOn ''minimize''] \<rparr>)
   \<and> ready (opted_out\<lparr>settings := (settings opted_out)(''errorReporting'' := True)\<rparr>)
        (initial_state default_updater)
       = ready opted_out (initial_state default_updater)
   \<and> \<not> settings linux_opted_out ''errorReporting'' \<and> \<not> isDevelopment linux_opted_out
   \<and> ready linux_opted_out (initial_state default_updater) =
       (Inl (TypeError ''Invalid Version: linux''), initial_state default_updater)"
proof -
  have "ready linux_opted_out (initial_state default_updater) =
      (Inl (TypeError ''Invalid Version: linux''), initial_state default_updater)"
    by code_simp
  moreover have "\<not> settings linux_opted_out ''errorReporting'' \<and> \<not> isDevelopment linux_opted_out"
    by (simp add: linux_opted_out_def opted_out_def isDevelopment_def)
  moreover have "\<not> settings opted_out ''errorReporting'' \<and> \<not> isDevelopment opted_out"
    by (simp add: opted_out_def isDevelopment_def)
  moreover have "dirname opted_out = ''/opt/Etcher/lib/gui''"
    and "\<not> settings opted_out ''updatesEnabled''"
    by (simp_all add: opted_out_def)
  ultimately show ?thesis
    by (simp add: opted_out_passes ready_ignores_errorReporting started_def startup_calls_def
        initial_state_def)
qed

end
